theory Spec2Isabelle
  imports Complex_Main "HOL-Library.AList"
begin

section \<open>JavaScript values\<close>

text \<open>
  The request body is what \<^verbatim>\<open>express.json()\<close> parsed: a JavaScript object whose
  property values are arbitrary JSON values. A missing property reads as
  \<^verbatim>\<open>undefined\<close>. An object is its list of properties (keys are unique, the first
  entry of a key is the one that counts).

  Numbers are idealised: a number value \<open>Num s\<close> is carried as the text \<open>s\<close> that
  \<^verbatim>\<open>String(x)\<close> gives for it (\<^verbatim>\<open>3.5\<close> is \<open>Num ''3.5''\<close>), and the numeric value that
  \<^verbatim>\<open>parseFloat\<close> reads is an exact rational: the rounding, overflow and underflow
  of IEEE doubles are outside the model. Strings are lists of 8-bit characters, so the
  length of a string is its number of characters.
\<close>

datatype jsval =
    Undefined
  | Null
  | Bool bool
  | Num string
  | Str string
  | Arr "jsval list"
  | Obj "(string \<times> jsval) list"

type_synonym body = "(string \<times> jsval) list"

definition get_prop :: "body \<Rightarrow> string \<Rightarrow> jsval" where
  "get_prop obj k = (case map_of obj k of None \<Rightarrow> Undefined | Some v \<Rightarrow> v)"

definition set_prop :: "body \<Rightarrow> string \<Rightarrow> jsval \<Rightarrow> body" where
  "set_prop obj k v = AList.update k v obj"

text \<open>The result of \<^verbatim>\<open>parseFloat\<close>: a JavaScript number.\<close>

datatype jsnum = NaN | Infinity bool | Fin rat

fun join_comma :: "string list \<Rightarrow> string" where
  "join_comma [] = []"
| "join_comma [s] = s"
| "join_comma (s # t # ts) = s @ '','' @ join_comma (t # ts)"

text \<open>
  \<^verbatim>\<open>String(v)\<close>. An array is the comma-joined text of its elements, where
  \<^verbatim>\<open>null\<close> and \<^verbatim>\<open>undefined\<close> elements give the empty text; an object parsed from
  JSON inherits \<^verbatim>\<open>Object.prototype.toString\<close> (objects with an own key
  \<^verbatim>\<open>toString\<close> or \<^verbatim>\<open>valueOf\<close> are outside the model).
\<close>

fun js_String :: "jsval \<Rightarrow> string" where
  "js_String Undefined = ''undefined''"
| "js_String Null = ''null''"
| "js_String (Bool b) = (if b then ''true'' else ''false'')"
| "js_String (Num s) = s"
| "js_String (Str s) = s"
| "js_String (Arr xs) =
     join_comma (map (\<lambda>x. if x = Undefined \<or> x = Null then [] else js_String x) xs)"
| "js_String (Obj kvs) = ''[object Object]''"

subsection \<open>Characters\<close>

text \<open>The characters that the pattern \<^verbatim>\<open>\s\<close> matches and that \<^verbatim>\<open>parseInt\<close> and
  \<^verbatim>\<open>parseFloat\<close> skip at the start: tab, line feed, vertical tab, form feed, carriage
  return, space and the no-break space.\<close>

definition is_space :: "char \<Rightarrow> bool" where
  "is_space c = (of_char c \<in> {9, 10, 11, 12, 13, 32, 160 :: nat})"

definition is_digit :: "char \<Rightarrow> bool" where
  "is_digit c = (48 \<le> (of_char c :: nat) \<and> (of_char c :: nat) \<le> 57)"

definition digit_val :: "char \<Rightarrow> nat" where
  "digit_val c = of_char c - 48"

definition digits_val :: "string \<Rightarrow> nat" where
  "digits_val ds = foldl (\<lambda>n c. 10 * n + digit_val c) 0 ds"

definition hex_val :: "char \<Rightarrow> nat option" where
  "hex_val c =
     (let n = (of_char c :: nat) in
      if 48 \<le> n \<and> n \<le> 57 then Some (n - 48)
      else if 97 \<le> n \<and> n \<le> 102 then Some (n - 87)
      else if 65 \<le> n \<and> n \<le> 70 then Some (n - 55)
      else None)"

definition is_sign :: "char \<Rightarrow> bool" where
  "is_sign c = (c = CHR ''+'' \<or> c = CHR ''-'')"

definition skip_sign :: "string \<Rightarrow> string" where
  "skip_sign s = (case s of c # r \<Rightarrow> if is_sign c then r else s | [] \<Rightarrow> s)"

definition negative :: "string \<Rightarrow> bool" where
  "negative s = (case s of c # r \<Rightarrow> c = CHR ''-'' | [] \<Rightarrow> False)"

subsection \<open>parseInt and parseFloat\<close>

text \<open>
  \<^verbatim>\<open>parseInt(s)\<close> with no radix: leading white space is skipped, a sign is read, a
  prefix \<^verbatim>\<open>0x\<close> or \<^verbatim>\<open>0X\<close> selects radix 16, and the longest prefix of digits is the
  value; what follows the digits is ignored. \<open>None\<close> is \<^verbatim>\<open>NaN\<close>.
\<close>

definition parseInt :: "string \<Rightarrow> int option" where
  "parseInt s =
     (let t = dropWhile is_space s;
          sgn = (if negative t then - 1 else 1 :: int);
          u = skip_sign t
      in if take 2 u = ''0x'' \<or> take 2 u = ''0X'' then
           (let ds = takeWhile (\<lambda>c. hex_val c \<noteq> None) (drop 2 u)
            in if ds = [] then None
               else Some (sgn * int (foldl (\<lambda>n c. 16 * n + the (hex_val c)) 0 ds)))
         else
           (let ds = takeWhile is_digit u
            in if ds = [] then None else Some (sgn * int (digits_val ds))))"

text \<open>
  \<^verbatim>\<open>parseFloat(s)\<close>: leading white space is skipped and the longest prefix that is a
  decimal literal (sign, \<^verbatim>\<open>Infinity\<close> or digits with an optional fraction, and an
  exponent when it is complete) is the value.
\<close>

definition exponent_part :: "string \<Rightarrow> int" where
  "exponent_part r =
     (case r of
        c # r1 \<Rightarrow>
          if c = CHR ''e'' \<or> c = CHR ''E'' then
            (let ds = takeWhile is_digit (skip_sign r1)
             in if ds = [] then 0
                else (if negative r1 then - int (digits_val ds) else int (digits_val ds)))
          else 0
      | [] \<Rightarrow> 0)"

definition parseFloat_str :: "string \<Rightarrow> jsnum" where
  "parseFloat_str s =
     (let t = dropWhile is_space s;
          neg = negative t;
          u = skip_sign t
      in if take 8 u = ''Infinity'' then Infinity (\<not> neg)
         else
           (let ip = takeWhile is_digit u;
                r = dropWhile is_digit u;
                fp = (case r of c # r1 \<Rightarrow> if c = CHR ''.'' then takeWhile is_digit r1 else []
                      | [] \<Rightarrow> []);
                r2 = (case r of c # r1 \<Rightarrow> if c = CHR ''.'' then dropWhile is_digit r1 else r
                      | [] \<Rightarrow> r)
            in if ip = [] \<and> fp = [] then NaN
               else
                 (let m = of_nat (digits_val (ip @ fp)) / 10 ^ length fp * 10 powi exponent_part r2
                  in Fin (if neg then - m else m))))"

definition parseFloat :: "jsval \<Rightarrow> jsnum" where
  "parseFloat v = parseFloat_str (js_String v)"

section \<open>The validators of validator.js\<close>

text \<open>\<^verbatim>\<open>trim(str)\<close>: white space is removed at both ends.\<close>

definition trim :: "string \<Rightarrow> string" where
  "trim str = rev (dropWhile is_space (rev (dropWhile is_space str)))"

text \<open>\<^verbatim>\<open>isLength(str, {min})\<close>.\<close>

definition isLength :: "nat \<Rightarrow> string \<Rightarrow> bool" where
  "isLength min_len str = (min_len \<le> length str)"

text \<open>
  The pattern of \<^verbatim>\<open>isFloat\<close>: an optional sign, optional digits, an optional point
  followed by digits, and an optional exponent that has at least one digit; the whole
  text has to match.
\<close>

definition float_test :: "string \<Rightarrow> bool" where
  "float_test str =
     (let r = dropWhile is_digit (skip_sign str);
          r2 = (case r of c # r1 \<Rightarrow> if c = CHR ''.'' then dropWhile is_digit r1 else r
                | [] \<Rightarrow> r)
      in case r2 of
           [] \<Rightarrow> True
         | c # r3 \<Rightarrow>
             (c = CHR ''e'' \<or> c = CHR ''E'') \<and> skip_sign r3 \<noteq> [] \<and> list_all is_digit (skip_sign r3))"

fun replace_comma :: "string \<Rightarrow> string" where
  "replace_comma [] = []"
| "replace_comma (c # cs) = (if c = CHR '','' then CHR ''.'' # cs else c # replace_comma cs)"

fun num_gt :: "jsnum \<Rightarrow> rat \<Rightarrow> bool" where
  "num_gt NaN g = False"
| "num_gt (Infinity pos) g = pos"
| "num_gt (Fin x) g = (g < x)"

text \<open>\<^verbatim>\<open>isFloat(str, {gt})\<close>.\<close>

definition isFloat :: "rat \<Rightarrow> string \<Rightarrow> bool" where
  "isFloat gt str =
     (if str = [] \<or> str = ''.'' \<or> str = '','' \<or> str = ''-'' \<or> str = ''+'' then False
      else float_test str \<and> num_gt (parseFloat_str (replace_comma str)) gt)"

text \<open>\<^verbatim>\<open>isIn(str, values)\<close>.\<close>

definition isIn :: "string list \<Rightarrow> string \<Rightarrow> bool" where
  "isIn values str = (str \<in> set values)"

text \<open>\<^verbatim>\<open>isBoolean(str)\<close>, not loose: the four texts it accepts.\<close>

definition isBoolean :: "string \<Rightarrow> bool" where
  "isBoolean str = (str \<in> set [''true'', ''false'', ''1'', ''0''])"

section \<open>The validation chains of express-validator\<close>

text \<open>
  The chains are modelled as express-validator 7 runs them.
  A chain \<^verbatim>\<open>body(field)...\<close> is a stack of context items that run in order on the
  value of the field. A custom validation (\<^verbatim>\<open>isString\<close>, \<^verbatim>\<open>isArray\<close>) tests the
  value itself. A standard validation (a validator of validator.js) tests the text of
  the value, and of each element when the value is an array. A sanitizer replaces the
  value by the sanitized text (each element of an array) and writes it back to the
  request. No item stops the chain: every item runs and every failure adds an error
  with the message of \<^verbatim>\<open>withMessage\<close>.
\<close>

text \<open>The text a standard validator or sanitizer is given (\<^verbatim>\<open>toString\<close> of
  express-validator).\<close>

definition stringify :: "jsval \<Rightarrow> string" where
  "stringify v = (if v = Undefined \<or> v = Null then [] else js_String v)"

record verror =
  path :: string
  msg :: string
  val :: jsval

datatype context_item =
    CustomValidation "jsval \<Rightarrow> bool" string
  | StandardValidation "string \<Rightarrow> bool" string
  | Sanitization "string \<Rightarrow> string"

record chain =
  field :: string
  optional :: bool
  stack :: "context_item list"

fun elements :: "jsval \<Rightarrow> jsval list" where
  "elements (Arr xs) = xs"
| "elements v = [v]"

fun run_item :: "string \<Rightarrow> context_item \<Rightarrow> jsval \<times> verror list \<Rightarrow> jsval \<times> verror list" where
  "run_item p (CustomValidation test m) (v, es) =
     (v, es @ (if test v then [] else [\<lparr>path = p, msg = m, val = v\<rparr>]))"
| "run_item p (StandardValidation test m) (v, es) =
     (v, es @ map (\<lambda>x. \<lparr>path = p, msg = m, val = x\<rparr>)
               (filter (\<lambda>x. \<not> test (stringify x)) (elements v)))"
| "run_item p (Sanitization f) (v, es) =
     ((case v of Arr xs \<Rightarrow> Arr (map (\<lambda>x. Str (f (stringify x))) xs)
       | _ \<Rightarrow> Str (f (stringify v))), es)"

definition run_stack :: "string \<Rightarrow> context_item list \<Rightarrow> jsval \<Rightarrow> jsval \<times> verror list" where
  "run_stack p items v = foldl (\<lambda>st item. run_item p item st) (v, []) items"

text \<open>One chain as a middleware: an optional chain is skipped when the field is
  \<^verbatim>\<open>undefined\<close>; a changed value is written back to \<^verbatim>\<open>req.body\<close>.\<close>

definition run_field :: "chain \<Rightarrow> jsval \<Rightarrow> jsval \<times> verror list" where
  "run_field c v =
     (if optional c \<and> v = Undefined then (v, []) else run_stack (field c) (stack c) v)"

definition run_chain :: "chain \<Rightarrow> body \<Rightarrow> body \<times> verror list" where
  "run_chain c b =
     (let v = get_prop b (field c);
          (v', es) = run_field c v
      in (if v' = v then b else set_prop b (field c) v', es))"

fun run_chains :: "chain list \<Rightarrow> body \<Rightarrow> body \<times> verror list" where
  "run_chains [] b = (b, [])"
| "run_chains (c # cs) b =
     (let (b1, es1) = run_chain c b;
          (b2, es2) = run_chains cs b1
      in (b2, es1 @ es2))"

subsection \<open>The rules of a menu item\<close>

definition isString :: "jsval \<Rightarrow> bool" where
  "isString v = (case v of Str s \<Rightarrow> True | _ \<Rightarrow> False)"

definition isArray :: "nat \<Rightarrow> jsval \<Rightarrow> bool" where
  "isArray min_len v = (case v of Arr xs \<Rightarrow> min_len \<le> length xs | _ \<Rightarrow> False)"

definition validateMenuItem :: "chain list" where
  "validateMenuItem =
    [\<lparr>field = ''name'', optional = False, stack =
       [CustomValidation isString ''Name must be a string'',
        Sanitization trim,
        StandardValidation (isLength 3) ''Name must be at least 3 characters'']\<rparr>,
     \<lparr>field = ''description'', optional = False, stack =
       [CustomValidation isString ''Description must be a string'',
        Sanitization trim,
        StandardValidation (isLength 10) ''Description must be at least 10 characters'']\<rparr>,
     \<lparr>field = ''price'', optional = False, stack =
       [StandardValidation (isFloat 0) ''Price must be a number greater than 0'']\<rparr>,
     \<lparr>field = ''category'', optional = False, stack =
       [CustomValidation isString ''Category must be a string'',
        StandardValidation (isIn [''appetizer'', ''entree'', ''dessert'', ''beverage''])
          ''Category must be one of: appetizer, entree, dessert, beverage'']\<rparr>,
     \<lparr>field = ''ingredients'', optional = False, stack =
       [CustomValidation (isArray 1) ''Ingredients must be an array with at least 1 item'']\<rparr>,
     \<lparr>field = ''available'', optional = True, stack =
       [StandardValidation isBoolean ''Available must be a boolean'']\<rparr>]"

text \<open>\<^verbatim>\<open>validationResult(req)\<close> after the chains have run, with the request body as
  the sanitizers left it.\<close>

definition validationResult :: "body \<Rightarrow> body \<times> verror list" where
  "validationResult b = run_chains validateMenuItem b"

section \<open>The menu store and its routes\<close>

record menu_item =
  item_id :: int
  name :: jsval
  description :: jsval
  price :: jsnum
  category :: jsval
  ingredients :: jsval
  available :: jsval

type_synonym store = "menu_item list"

definition menuItems :: store where
  "menuItems =
    [\<lparr>item_id = 1, name = Str ''Classic Burger'',
      description = Str ''Beef patty with lettuce, tomato, and cheese on a sesame seed bun'',
      price = Fin (1299 / 100), category = Str ''entree'',
      ingredients = Arr [Str ''beef'', Str ''lettuce'', Str ''tomato'', Str ''cheese'', Str ''bun''],
      available = Bool True\<rparr>,
     \<lparr>item_id = 2, name = Str ''Chicken Caesar Salad'',
      description = Str ''Grilled chicken breast over romaine lettuce with parmesan and croutons'',
      price = Fin (1150 / 100), category = Str ''entree'',
      ingredients = Arr [Str ''chicken'', Str ''romaine lettuce'', Str ''parmesan cheese'',
        Str ''croutons'', Str ''caesar dressing''],
      available = Bool True\<rparr>,
     \<lparr>item_id = 3, name = Str ''Mozzarella Sticks'',
      description = Str ''Crispy breaded mozzarella served with marinara sauce'',
      price = Fin (899 / 100), category = Str ''appetizer'',
      ingredients = Arr [Str ''mozzarella cheese'', Str ''breadcrumbs'', Str ''marinara sauce''],
      available = Bool True\<rparr>,
     \<lparr>item_id = 4, name = Str ''Chocolate Lava Cake'',
      description = Str ''Warm chocolate cake with molten center, served with vanilla ice cream'',
      price = Fin (799 / 100), category = Str ''dessert'',
      ingredients = Arr [Str ''chocolate'', Str ''flour'', Str ''eggs'', Str ''butter'',
        Str ''vanilla ice cream''],
      available = Bool True\<rparr>,
     \<lparr>item_id = 5, name = Str ''Fresh Lemonade'',
      description = Str ''House-made lemonade with fresh lemons and mint'',
      price = Fin (399 / 100), category = Str ''beverage'',
      ingredients = Arr [Str ''lemons'', Str ''sugar'', Str ''water'', Str ''mint''],
      available = Bool True\<rparr>,
     \<lparr>item_id = 6, name = Str ''Fish and Chips'',
      description = Str ''Beer-battered cod with seasoned fries and coleslaw'',
      price = Fin (1499 / 100), category = Str ''entree'',
      ingredients = Arr [Str ''cod'', Str ''beer batter'', Str ''potatoes'', Str ''coleslaw'',
        Str ''tartar sauce''],
      available = Bool False\<rparr>]"

text \<open>A response: the status code and the JSON document sent.\<close>

datatype payload =
    Message string
  | Item menu_item
  | Items "menu_item list"
  | MessageItem string menu_item
  | MessageErrors string "verror list"

type_synonym response = "nat \<times> payload"

text \<open>\<^verbatim>\<open>item.id === parseInt(req.params.id)\<close>: never true when the parameter parses
  to \<^verbatim>\<open>NaN\<close>.\<close>

definition id_matches :: "string \<Rightarrow> menu_item \<Rightarrow> bool" where
  "id_matches idp item = (Some (item_id item) = parseInt idp)"

fun findIndex :: "('a \<Rightarrow> bool) \<Rightarrow> 'a list \<Rightarrow> nat option" where
  "findIndex P [] = None"
| "findIndex P (x # xs) = (if P x then Some 0 else map_option Suc (findIndex P xs))"

text \<open>\<^verbatim>\<open>GET /api/menu\<close>\<close>

definition list_menu :: "store \<Rightarrow> response" where
  "list_menu st = (200, Items st)"

text \<open>\<^verbatim>\<open>GET /api/menu/:id\<close>\<close>

definition get_menu :: "store \<Rightarrow> string \<Rightarrow> response" where
  "get_menu st idp =
     (case find (id_matches idp) st of
        None \<Rightarrow> (404, Message ''Menu item not found'')
      | Some item \<Rightarrow> (200, Item item))"

text \<open>The id of a new item: \<^verbatim>\<open>Math.max\<close> of the ids plus one when the array is not
  empty, and 1 otherwise.\<close>

definition next_id :: "store \<Rightarrow> int" where
  "next_id st = (case map item_id st of [] \<Rightarrow> 1 | x # xs \<Rightarrow> fold max xs x + 1)"

text \<open>The handler of \<^verbatim>\<open>POST /api/menu\<close>, run on the request body that passed the
  validation.\<close>

definition post_handler :: "store \<Rightarrow> body \<Rightarrow> response \<times> store" where
  "post_handler st b =
     (let av = get_prop b ''available'';
          newItem = \<lparr>item_id = next_id st,
                     name = get_prop b ''name'',
                     description = get_prop b ''description'',
                     price = parseFloat (get_prop b ''price''),
                     category = get_prop b ''category'',
                     ingredients = get_prop b ''ingredients'',
                     available = (if av \<noteq> Undefined then av else Bool True)\<rparr>
      in ((201, Item newItem), st @ [newItem]))"

text \<open>The handler of \<^verbatim>\<open>PUT /api/menu/:id\<close>. The source finds the object and assigns
  to its fields; the objects of the array are distinct, so that is an update of the
  array at the index of the first match.\<close>

definition put_handler :: "store \<Rightarrow> string \<Rightarrow> body \<Rightarrow> response \<times> store" where
  "put_handler st idp b =
     (case findIndex (id_matches idp) st of
        None \<Rightarrow> ((404, Message ''Menu item not found''), st)
      | Some i \<Rightarrow>
          (let av = get_prop b ''available'';
               item = (st ! i)\<lparr>name := get_prop b ''name'',
                              description := get_prop b ''description'',
                              price := parseFloat (get_prop b ''price''),
                              category := get_prop b ''category'',
                              ingredients := get_prop b ''ingredients'',
                              available := (if av \<noteq> Undefined then av else Bool True)\<rparr>
           in ((200, Item item), st[i := item])))"

text \<open>\<^verbatim>\<open>validateMenuItem, handleValidationErrors\<close> before a handler: with any error
  the response is 400 and the handler does not run.\<close>

definition handleValidationErrors ::
  "body \<Rightarrow> store \<Rightarrow> (body \<Rightarrow> response \<times> store) \<Rightarrow> response \<times> store" where
  "handleValidationErrors b st handler =
     (let (b', errors) = validationResult b
      in if errors \<noteq> [] then ((400, MessageErrors ''Validation failed'' errors), st)
         else handler b')"

definition post_menu :: "store \<Rightarrow> body \<Rightarrow> response \<times> store" where
  "post_menu st b = handleValidationErrors b st (post_handler st)"

definition put_menu :: "store \<Rightarrow> string \<Rightarrow> body \<Rightarrow> response \<times> store" where
  "put_menu st idp b = handleValidationErrors b st (put_handler st idp)"

text \<open>\<^verbatim>\<open>DELETE /api/menu/:id\<close>: \<^verbatim>\<open>splice(index, 1)\<close> removes the element at the
  index.\<close>

definition delete_menu :: "store \<Rightarrow> string \<Rightarrow> response \<times> store" where
  "delete_menu st idp =
     (case findIndex (id_matches idp) st of
        None \<Rightarrow> ((404, Message ''Menu item not found''), st)
      | Some i \<Rightarrow>
          ((200, MessageItem ''Menu item deleted'' (st ! i)), take i st @ drop (Suc i) st))"

subsection \<open>Requests and the states the server can reach\<close>

datatype request =
    ListMenu
  | GetMenu string
  | PostMenu body
  | PutMenu string body
  | DeleteMenu string

fun handle :: "store \<Rightarrow> request \<Rightarrow> response \<times> store" where
  "handle st ListMenu = (list_menu st, st)"
| "handle st (GetMenu idp) = (get_menu st idp, st)"
| "handle st (PostMenu b) = post_menu st b"
| "handle st (PutMenu idp b) = put_menu st idp b"
| "handle st (DeleteMenu idp) = delete_menu st idp"

inductive reachable :: "store \<Rightarrow> bool" where
  init: "reachable menuItems"
| step: "reachable st \<Longrightarrow> reachable (snd (handle st r))"

text \<open>A run of requests, and the requests that create an item under a given id.\<close>

fun run :: "store \<Rightarrow> request list \<Rightarrow> store" where
  "run st [] = st"
| "run st (r # rs) = run (snd (handle st r)) rs"

definition present :: "store \<Rightarrow> string \<Rightarrow> bool" where
  "present st idp = list_ex (id_matches idp) st"

fun inserts_id :: "string \<Rightarrow> store \<Rightarrow> request \<Rightarrow> bool" where
  "inserts_id idp st (PostMenu b) =
     (snd (validationResult b) = [] \<and> parseInt idp = Some (next_id st))"
| "inserts_id idp st r = False"

fun never_inserted :: "string \<Rightarrow> store \<Rightarrow> request list \<Rightarrow> bool" where
  "never_inserted idp st [] = True"
| "never_inserted idp st (r # rs) =
     (\<not> inserts_id idp st r \<and> never_inserted idp (snd (handle st r)) rs)"



text \<open>The fields of a request body that the routes read.\<close>

definition known_fields :: "string list" where
  "known_fields = [''name'', ''description'', ''price'', ''category'', ''ingredients'', ''available'']"

text \<open>The rules of the data model that the custom validations and the sanitizers
  enforce on a stored item: a name of at least 3 and a description of at least 10
  characters after trimming, a category of the four, and ingredients that are an array
  with an element.\<close>

definition checked_fields_ok :: "menu_item \<Rightarrow> bool" where
  "checked_fields_ok item =
     ((case name item of Str n \<Rightarrow> 3 \<le> length (trim n) | _ \<Rightarrow> False) \<and>
      (case description item of Str d \<Rightarrow> 10 \<le> length (trim d) | _ \<Rightarrow> False) \<and>
      (case category item of
         Str c \<Rightarrow> c \<in> set [''appetizer'', ''entree'', ''dessert'', ''beverage'']
       | _ \<Rightarrow> False) \<and>
      (case ingredients item of Arr xs \<Rightarrow> xs \<noteq> [] | _ \<Rightarrow> False))"

text \<open>The request bodies of the specification's scenarios: a valid item, and an item
  that breaks a rule in each of five fields.\<close>

definition iced_tea :: body where
  "iced_tea =
    [(''name'', Str ''Iced Tea''),
     (''description'', Str ''Cold brewed tea over ice''),
     (''price'', Num ''3.5''),
     (''category'', Str ''beverage''),
     (''ingredients'', Arr [Str ''tea'', Str ''ice''])]"

definition padded_tea :: body where
  "padded_tea =
    [(''name'', Str ''  Iced Tea  ''),
     (''description'', Str ''Cold brewed tea over ice''),
     (''price'', Num ''3.5''),
     (''category'', Str ''beverage''),
     (''ingredients'', Arr [Str ''tea'', Str ''ice''])]"

definition five_wrong :: body where
  "five_wrong =
    [(''name'', Str ''ab''),
     (''description'', Str ''short''),
     (''price'', Num ''-1''),
     (''category'', Str ''snack''),
     (''ingredients'', Arr [])]"

section \<open>Properties of the validation\<close>

lemma get_set_prop:
  "get_prop (set_prop b k v) k' = (if k' = k then v else get_prop b k')"
  by (simp add: get_prop_def set_prop_def update_conv')

lemma snd_run_chain: "snd (run_chain c b) = snd (run_field c (get_prop b (field c)))"
  by (simp add: run_chain_def Let_def split: prod.splits)

lemma get_prop_run_chain:
  "get_prop (fst (run_chain c b)) k =
     (if k = field c then fst (run_field c (get_prop b k)) else get_prop b k)"
  by (auto simp: run_chain_def Let_def get_set_prop split: prod.splits)

lemma snd_run_chains:
  "distinct (map field cs) \<Longrightarrow>
   snd (run_chains cs b) = concat (map (\<lambda>c. snd (run_field c (get_prop b (field c)))) cs)"
proof (induction cs arbitrary: b)
  case Nil
  show ?case by simp
next
  case (Cons c cs)
  have other: "get_prop (fst (run_chain c b)) (field d) = get_prop b (field d)" if "d \<in> set cs" for d
  proof -
    have "field c \<notin> set (map field cs)" using Cons.prems by simp
    moreover have "field d \<in> set (map field cs)" using that by simp
    ultimately have "field d \<noteq> field c" by metis
    then show ?thesis by (simp add: get_prop_run_chain)
  qed
  have "snd (run_chains (c # cs) b) = snd (run_chain c b) @ snd (run_chains cs (fst (run_chain c b)))"
    by (simp add: Let_def split: prod.splits)
  also have "snd (run_chains cs (fst (run_chain c b))) =
      concat (map (\<lambda>d. snd (run_field d (get_prop (fst (run_chain c b)) (field d)))) cs)"
    using Cons.IH Cons.prems by simp
  also have "\<dots> = concat (map (\<lambda>d. snd (run_field d (get_prop b (field d)))) cs)"
    using other by (simp cong: map_cong)
  finally show ?case by (simp add: snd_run_chain)
qed

lemma get_prop_run_chains:
  "distinct (map field cs) \<Longrightarrow>
   get_prop (fst (run_chains cs b)) k =
     (case find (\<lambda>c. field c = k) cs of
        None \<Rightarrow> get_prop b k
      | Some c \<Rightarrow> fst (run_field c (get_prop b k)))"
proof (induction cs arbitrary: b)
  case Nil
  show ?case by simp
next
  case (Cons c cs)
  have fst_eq: "fst (run_chains (c # cs) b) = fst (run_chains cs (fst (run_chain c b)))"
    by (simp add: Let_def split: prod.splits)
  have IH: "get_prop (fst (run_chains cs (fst (run_chain c b)))) k =
     (case find (\<lambda>c. field c = k) cs of
        None \<Rightarrow> get_prop (fst (run_chain c b)) k
      | Some d \<Rightarrow> fst (run_field d (get_prop (fst (run_chain c b)) k)))"
    using Cons.IH Cons.prems by simp
  show ?case
  proof (cases "field c = k")
    case True
    have "field c \<notin> set (map field cs)" using Cons.prems by simp
    then have "\<forall>d\<in>set cs. field d \<noteq> field c" by (metis image_eqI set_map)
    with True have "find (\<lambda>c. field c = k) cs = None"
      by (simp add: find_None_iff)
    with True IH show ?thesis by (simp add: fst_eq get_prop_run_chain del: run_chains.simps)
  next
    case False
    then have "k \<noteq> field c" by blast
    with IH False show ?thesis
      by (simp add: fst_eq get_prop_run_chain del: run_chains.simps split: option.splits)
  qed
qed

lemma fields_validateMenuItem: "map field validateMenuItem = known_fields"
  by (simp add: validateMenuItem_def known_fields_def)

lemma validation_errors:
  "snd (validationResult b) =
     concat (map (\<lambda>c. snd (run_field c (get_prop b (field c)))) validateMenuItem)"
  unfolding validationResult_def
  by (rule snd_run_chains) (simp add: fields_validateMenuItem known_fields_def)

lemma validation_body:
  "get_prop (fst (validationResult b)) k =
     (case find (\<lambda>c. field c = k) validateMenuItem of
        None \<Rightarrow> get_prop b k
      | Some c \<Rightarrow> fst (run_field c (get_prop b k)))"
  unfolding validationResult_def
  by (rule get_prop_run_chains) (simp add: fields_validateMenuItem known_fields_def)

lemma validation_cong_errors:
  assumes "\<forall>k\<in>set known_fields. get_prop b1 k = get_prop b2 k"
  shows "snd (validationResult b1) = snd (validationResult b2)"
proof -
  have "\<forall>c\<in>set validateMenuItem. get_prop b1 (field c) = get_prop b2 (field c)"
    using assms fields_validateMenuItem by (metis image_eqI set_map)
  then show ?thesis
    by (simp add: validation_errors cong: map_cong)
qed

lemma validation_cong_body:
  assumes "\<forall>k\<in>set known_fields. get_prop b1 k = get_prop b2 k" and "k \<in> set known_fields"
  shows "get_prop (fst (validationResult b1)) k = get_prop (fst (validationResult b2)) k"
proof -
  from assms have "get_prop b1 k = get_prop b2 k" by blast
  then show ?thesis by (simp add: validation_body split: option.splits)
qed

lemma string_chain_valid:
  assumes "snd (run_stack p [CustomValidation isString m1, Sanitization trim,
             StandardValidation (isLength n) m2] v) = []"
  shows "\<exists>s. v = Str s \<and> n \<le> length (trim s) \<and>
           fst (run_stack p [CustomValidation isString m1, Sanitization trim,
             StandardValidation (isLength n) m2] v) = Str (trim s)"
proof -
  from assms have "isString v"
    by (auto simp: run_stack_def split: if_splits)
  then obtain s where s: "v = Str s"
    by (auto simp: isString_def split: jsval.splits)
  with assms show ?thesis
    by (auto simp: run_stack_def isString_def stringify_def isLength_def split: if_splits)
qed

lemma valid_body:
  assumes "snd (validationResult b) = []"
  shows "\<exists>n d. get_prop b ''name'' = Str n \<and> get_prop b ''description'' = Str d \<and>
           3 \<le> length (trim n) \<and> 10 \<le> length (trim d) \<and>
           get_prop (fst (validationResult b)) ''name'' = Str (trim n) \<and>
           get_prop (fst (validationResult b)) ''description'' = Str (trim d)"
    and "get_prop (fst (validationResult b)) ''price'' = get_prop b ''price''"
    and "get_prop (fst (validationResult b)) ''category'' = get_prop b ''category''"
    and "get_prop (fst (validationResult b)) ''ingredients'' = get_prop b ''ingredients''"
    and "get_prop (fst (validationResult b)) ''available'' = get_prop b ''available''"
proof -
  have all: "\<forall>c\<in>set validateMenuItem. snd (run_field c (get_prop b (field c))) = []"
    using assms by (simp add: validation_errors)
  from all obtain n where n: "get_prop b ''name'' = Str n" "3 \<le> length (trim n)"
    "get_prop (fst (validationResult b)) ''name'' = Str (trim n)"
    using string_chain_valid [of "''name''" _ 3 _ "get_prop b ''name''"]
    by (fastforce simp: validateMenuItem_def run_field_def validation_body)
  from all obtain d where d: "get_prop b ''description'' = Str d" "10 \<le> length (trim d)"
    "get_prop (fst (validationResult b)) ''description'' = Str (trim d)"
    using string_chain_valid [of "''description''" _ 10 _ "get_prop b ''description''"]
    by (fastforce simp: validateMenuItem_def run_field_def validation_body)
  from n d show "\<exists>n d. get_prop b ''name'' = Str n \<and> get_prop b ''description'' = Str d \<and>
           3 \<le> length (trim n) \<and> 10 \<le> length (trim d) \<and>
           get_prop (fst (validationResult b)) ''name'' = Str (trim n) \<and>
           get_prop (fst (validationResult b)) ''description'' = Str (trim d)"
    by blast
  show "get_prop (fst (validationResult b)) ''price'' = get_prop b ''price''"
    by (simp add: validation_body validateMenuItem_def run_field_def run_stack_def)
  show "get_prop (fst (validationResult b)) ''category'' = get_prop b ''category''"
    by (simp add: validation_body validateMenuItem_def run_field_def run_stack_def)
  show "get_prop (fst (validationResult b)) ''ingredients'' = get_prop b ''ingredients''"
    by (simp add: validation_body validateMenuItem_def run_field_def run_stack_def)
  show "get_prop (fst (validationResult b)) ''available'' = get_prop b ''available''"
    by (simp add: validation_body validateMenuItem_def run_field_def run_stack_def)
qed

section \<open>Properties of the store\<close>

lemma findIndex_None: "findIndex P xs = None \<longleftrightarrow> \<not> list_ex P xs"
  by (induction xs) auto

lemma findIndex_Some:
  "findIndex P xs = Some i \<Longrightarrow> i < length xs \<and> P (xs ! i) \<and> (\<forall>j<i. \<not> P (xs ! j))"
proof (induction xs arbitrary: i)
  case Nil
  then show ?case by simp
next
  case (Cons x xs)
  show ?case
  proof (cases "P x")
    case True
    with Cons.prems show ?thesis by simp
  next
    case False
    with Cons.prems obtain k where k: "findIndex P xs = Some k" "i = Suc k"
      by auto
    with Cons.IH have "k < length xs \<and> P (xs ! k) \<and> (\<forall>j<k. \<not> P (xs ! j))" by blast
    with k False show ?thesis
      by (auto simp: nth_Cons split: nat.splits)
  qed
qed

lemma find_findIndex: "find P xs = map_option (\<lambda>i. xs ! i) (findIndex P xs)"
  by (induction xs) (auto simp: option.map_comp comp_def)

lemma present_iff: "present st idp \<longleftrightarrow> (\<exists>n. parseInt idp = Some n \<and> n \<in> set (map item_id st))"
proof
  assume "present st idp"
  then obtain x where x: "x \<in> set st" "parseInt idp = Some (item_id x)"
    by (auto simp: present_def list_ex_iff id_matches_def)
  then have "item_id x \<in> set (map item_id st)" by simp
  with x show "\<exists>n. parseInt idp = Some n \<and> n \<in> set (map item_id st)" by blast
next
  assume "\<exists>n. parseInt idp = Some n \<and> n \<in> set (map item_id st)"
  then show "present st idp"
    by (auto simp: present_def list_ex_iff id_matches_def)
qed

lemma not_present_NaN: "parseInt idp = None \<Longrightarrow> \<not> present st idp"
  by (simp add: present_iff)

lemma get_menu_absent: "\<not> present st idp \<Longrightarrow> get_menu st idp = (404, Message ''Menu item not found'')"
  by (simp add: get_menu_def find_findIndex present_def findIndex_None [symmetric])

lemma get_menu_present:
  "present st idp \<Longrightarrow> \<exists>item. get_menu st idp = (200, Item item) \<and> item \<in> set st \<and> id_matches idp item"
proof -
  assume "present st idp"
  then obtain i where i: "findIndex (id_matches idp) st = Some i"
    using findIndex_None [of "id_matches idp" st] by (auto simp: present_def)
  from findIndex_Some [OF i] i show ?thesis
    by (auto simp: get_menu_def find_findIndex)
qed

lemma next_id_Max: "next_id st = (if st = [] then 1 else Max (set (map item_id st)) + 1)"
proof (cases st)
  case Nil
  then show ?thesis by (simp add: next_id_def)
next
  case (Cons x xs)
  have "fold max (map item_id xs) (item_id x) = Max (set (item_id x # map item_id xs))"
    by (rule Max.set_eq_fold [symmetric])
  with Cons show ?thesis by (simp add: next_id_def)
qed

lemma next_id_fresh: "next_id st \<notin> set (map item_id st)"
proof
  assume a: "next_id st \<in> set (map item_id st)"
  then have ne: "st \<noteq> []" by auto
  from a have "next_id st \<le> Max (set (map item_id st))" by (intro Max_ge) auto
  with ne show False by (simp add: next_id_Max)
qed

lemma valid_request:
  "snd (validationResult b) = [] \<Longrightarrow>
   handleValidationErrors b st h = h (fst (validationResult b))"
  by (cases "validationResult b") (simp add: handleValidationErrors_def)

lemma invalid_request:
  "snd (validationResult b) \<noteq> [] \<Longrightarrow>
   handleValidationErrors b st h =
     ((400, MessageErrors ''Validation failed'' (snd (validationResult b))), st)"
  by (cases "validationResult b") (simp add: handleValidationErrors_def)

lemma ids_post_handler: "map item_id (snd (post_handler st b)) = map item_id st @ [next_id st]"
  by (simp add: post_handler_def Let_def)

lemma ids_put_handler: "map item_id (snd (put_handler st idp b)) = map item_id st"
proof (cases "findIndex (id_matches idp) st")
  case None
  then show ?thesis by (simp add: put_handler_def)
next
  case (Some i)
  from findIndex_Some [OF Some] have "i < length st" by simp
  with Some show ?thesis
    by (simp add: put_handler_def Let_def map_update list_update_same_conv)
qed

lemma ids_put_menu: "map item_id (snd (put_menu st idp b)) = map item_id st"
  by (cases "snd (validationResult b) = []")
     (simp_all add: put_menu_def valid_request invalid_request ids_put_handler)

lemma ids_post_menu:
  "map item_id (snd (post_menu st b)) =
     (if snd (validationResult b) = [] then map item_id st @ [next_id st] else map item_id st)"
  by (simp add: post_menu_def valid_request invalid_request ids_post_handler)

lemma delete_menu_Some:
  "findIndex (id_matches idp) st = Some i \<Longrightarrow>
   delete_menu st idp =
     ((200, MessageItem ''Menu item deleted'' (st ! i)), take i st @ drop (Suc i) st)"
  by (simp add: delete_menu_def)

lemma delete_menu_None:
  "\<not> present st idp \<Longrightarrow> delete_menu st idp = ((404, Message ''Menu item not found''), st)"
  by (simp add: delete_menu_def present_def findIndex_None [symmetric])

lemma ids_delete_menu:
  "\<exists>i. map item_id (snd (delete_menu st idp)) = take i (map item_id st) @ drop (Suc i) (map item_id st)
       \<or> snd (delete_menu st idp) = st"
  by (cases "findIndex (id_matches idp) st") (auto simp: delete_menu_def take_map drop_map)

lemma distinct_remove_nth: "distinct xs \<Longrightarrow> distinct (take i xs @ drop (Suc i) xs)"
  using set_take_disj_set_drop_if_distinct [of xs i "Suc i"] by simp

lemma distinct_ids_step:
  "distinct (map item_id st) \<Longrightarrow> distinct (map item_id (snd (handle st r)))"
proof (cases r)
  case (DeleteMenu idp)
  assume d: "distinct (map item_id st)"
  from ids_delete_menu [of st idp] d DeleteMenu show ?thesis
    by (auto simp: distinct_remove_nth simp del: distinct_append)
qed (use next_id_fresh in \<open>auto simp: ids_put_menu ids_post_menu simp del: set_map\<close>)

lemma reachable_distinct: "reachable st \<Longrightarrow> distinct (map item_id st)"
proof (induction rule: reachable.induct)
  case init
  show ?case by (simp add: menuItems_def)
next
  case (step st r)
  then show ?case by (simp add: distinct_ids_step)
qed

section \<open>The rules that every stored item satisfies\<close>

lemma trim_idem: "trim (trim s) = trim s"
proof -
  define t where "t = dropWhile is_space s"
  define u where "u = rev (dropWhile is_space (rev t))"
  have t: "t = [] \<or> \<not> is_space (hd t)"
    unfolding t_def using hd_dropWhile [of is_space s] by blast
  have "u @ rev (takeWhile is_space (rev t)) =
      rev (takeWhile is_space (rev t) @ dropWhile is_space (rev t))"
    by (simp only: u_def rev_append)
  also have "\<dots> = rev (rev t)" by (simp only: takeWhile_dropWhile_id)
  also have "\<dots> = t" by simp
  finally have split: "t = u @ rev (takeWhile is_space (rev t))" by (rule sym)
  have "u = [] \<or> \<not> is_space (hd u)"
  proof (cases "u = []")
    case True
    then show ?thesis by simp
  next
    case False
    with split have "hd t = hd u" by (metis hd_append2)
    moreover from False split have "t \<noteq> []" by auto
    ultimately show ?thesis using t by simp
  qed
  then have "dropWhile is_space u = u" by (simp add: dropWhile_eq_self_iff)
  then have "trim u = rev (dropWhile is_space (rev u))" by (simp add: trim_def)
  also have "\<dots> = u" by (simp add: u_def)
  finally show ?thesis by (simp add: trim_def u_def t_def)
qed

lemma valid_category:
  assumes "snd (validationResult b) = []"
  shows "\<exists>c. get_prop b ''category'' = Str c \<and>
           c \<in> set [''appetizer'', ''entree'', ''dessert'', ''beverage'']"
proof -
  have all: "\<forall>c\<in>set validateMenuItem. snd (run_field c (get_prop b (field c))) = []"
    using assms by (simp add: validation_errors)
  then have e: "snd (run_stack ''category''
       [CustomValidation isString ''Category must be a string'',
        StandardValidation (isIn [''appetizer'', ''entree'', ''dessert'', ''beverage''])
          ''Category must be one of: appetizer, entree, dessert, beverage'']
       (get_prop b ''category'')) = []"
    by (simp add: validateMenuItem_def run_field_def)
  then have "isString (get_prop b ''category'')"
    by (auto simp: run_stack_def split: if_splits)
  then obtain c where c: "get_prop b ''category'' = Str c"
    by (auto simp: isString_def split: jsval.splits)
  with e show ?thesis
    by (auto simp: run_stack_def isString_def stringify_def isIn_def split: if_splits)
qed

lemma valid_ingredients:
  assumes "snd (validationResult b) = []"
  shows "\<exists>xs. get_prop b ''ingredients'' = Arr xs \<and> xs \<noteq> []"
proof -
  have all: "\<forall>c\<in>set validateMenuItem. snd (run_field c (get_prop b (field c))) = []"
    using assms by (simp add: validation_errors)
  then have "snd (run_stack ''ingredients''
       [CustomValidation (isArray 1) ''Ingredients must be an array with at least 1 item'']
       (get_prop b ''ingredients'')) = []"
    by (simp add: validateMenuItem_def run_field_def)
  then have "isArray 1 (get_prop b ''ingredients'')"
    by (auto simp: run_stack_def split: if_splits)
  then show ?thesis
    by (auto simp: isArray_def split: jsval.splits)
qed

lemma valid_fields_ok:
  assumes v: "snd (validationResult b) = []"
    and n: "name item = get_prop (fst (validationResult b)) ''name''"
    and d: "description item = get_prop (fst (validationResult b)) ''description''"
    and c: "category item = get_prop (fst (validationResult b)) ''category''"
    and i: "ingredients item = get_prop (fst (validationResult b)) ''ingredients''"
  shows "checked_fields_ok item"
proof -
  from valid_body(1) [OF v] obtain n' d' where
    "name item = Str (trim n')" "3 \<le> length (trim n')"
    "description item = Str (trim d')" "10 \<le> length (trim d')"
    using n d by auto
  moreover from valid_category [OF v] valid_body(3) [OF v] c obtain c' where
    "category item = Str c'" "c' \<in> set [''appetizer'', ''entree'', ''dessert'', ''beverage'']"
    by auto
  moreover from valid_ingredients [OF v] valid_body(4) [OF v] i obtain xs where
    "ingredients item = Arr xs" "xs \<noteq> []" by auto
  ultimately show ?thesis
    by (simp add: checked_fields_ok_def trim_idem)
qed

lemma checked_fields_step:
  assumes "list_all checked_fields_ok st"
  shows "list_all checked_fields_ok (snd (handle st r))"
proof (cases r)
  case ListMenu
  with assms show ?thesis by simp
next
  case (GetMenu x)
  with assms show ?thesis by simp
next
  case (PostMenu b)
  show ?thesis
  proof (cases "snd (validationResult b) = []")
    case True
    have "checked_fields_ok (last (snd (post_handler st (fst (validationResult b)))))"
      by (rule valid_fields_ok [OF True]) (simp_all add: post_handler_def Let_def)
    with assms True PostMenu show ?thesis
      by (simp add: post_menu_def valid_request post_handler_def Let_def)
  next
    case False
    with assms PostMenu show ?thesis by (simp add: post_menu_def invalid_request)
  qed
next
  case (PutMenu x b)
  show ?thesis
  proof (cases "snd (validationResult b) = []")
    case True
    show ?thesis
    proof (cases "findIndex (id_matches x) st")
      case None
      with assms True PutMenu show ?thesis
        by (simp add: put_menu_def valid_request put_handler_def)
    next
      case (Some i)
      let ?b = "fst (validationResult b)"
      let ?item = "(st ! i)\<lparr>name := get_prop ?b ''name'',
                              description := get_prop ?b ''description'',
                              price := parseFloat (get_prop ?b ''price''),
                              category := get_prop ?b ''category'',
                              ingredients := get_prop ?b ''ingredients'',
                              available := (if get_prop ?b ''available'' \<noteq> Undefined
                                then get_prop ?b ''available'' else Bool True)\<rparr>"
      have ok: "checked_fields_ok ?item"
        by (rule valid_fields_ok [OF True]) simp_all
      have st': "snd (handle st r) = st[i := ?item]"
        using True PutMenu Some by (simp add: put_menu_def valid_request put_handler_def Let_def)
      have "set (st[i := ?item]) \<subseteq> insert ?item (set st)"
        by (rule set_update_subset_insert)
      with assms ok show ?thesis
        unfolding st' list_all_iff by blast
    qed
  next
    case False
    with assms PutMenu show ?thesis by (simp add: put_menu_def invalid_request)
  qed
next
  case (DeleteMenu x)
  have "set (snd (delete_menu st x)) \<subseteq> set st"
    by (cases "findIndex (id_matches x) st")
       (auto simp: delete_menu_def dest: in_set_takeD in_set_dropD)
  with assms DeleteMenu show ?thesis
    unfolding list_all_iff by auto
qed

lemma seed_fields_ok: "list_all checked_fields_ok menuItems"
  by code_simp

text \<open>In every state the server can reach, the name, description, category and
  ingredients of every item satisfy the rules of the data model.\<close>

lemma reachable_checked_fields: "reachable st \<Longrightarrow> list_all checked_fields_ok st"
proof (induction rule: reachable.induct)
  case init
  show ?case by (rule seed_fields_ok)
next
  case (step st r)
  from step.IH show ?case by (rule checked_fields_step)
qed

text \<open>A standard validation tests each element of an array, so it finds nothing in
  the empty array: a price \<^verbatim>\<open>[]\<close> passes, and the stored price is \<^verbatim>\<open>NaN\<close>.\<close>

lemma empty_array_price:
  "snd (validationResult
     [(''name'', Str ''Iced Tea''), (''description'', Str ''Cold brewed tea over ice''),
      (''price'', Arr []), (''category'', Str ''beverage''),
      (''ingredients'', Arr [Str ''tea'', Str ''ice''])]) = [] \<and>
   price (last (run menuItems [PostMenu
     [(''name'', Str ''Iced Tea''), (''description'', Str ''Cold brewed tea over ice''),
      (''price'', Arr []), (''category'', Str ''beverage''),
      (''ingredients'', Arr [Str ''tea'', Str ''ice''])]])) = NaN"
  by code_simp

section \<open>The claims\<close>

lemma put_handler_absent:
  "\<not> present st idp \<Longrightarrow> put_handler st idp b = ((404, Message ''Menu item not found''), st)"
  by (simp add: put_handler_def present_def findIndex_None [symmetric])

lemma iced_tea_valid: "snd (validationResult iced_tea) = []"
  by code_simp

lemma post_menu_valid:
  "snd (validationResult b) = [] \<Longrightarrow>
   \<exists>item. post_menu st b = ((201, Item item), st @ [item]) \<and> item_id item = next_id st"
  by (simp add: post_menu_def valid_request post_handler_def Let_def)

text \<open>
  Claim C1, as amended. The validation runs before the handler of the PUT route looks
  the id up. So for an id that is not in the collection, the update answers 404 when the
  candidate passes the validation and 400 with the list of errors when it does not; in
  both cases the collection is left as it was.
\<close>

theorem update_absent_id:
  "\<not> present st idp \<Longrightarrow>
   put_menu st idp b =
     ((if snd (validationResult b) = [] then (404, Message ''Menu item not found'')
       else (400, MessageErrors ''Validation failed'' (snd (validationResult b)))), st)"
  by (simp add: put_menu_def valid_request invalid_request put_handler_absent)

theorem update_absent_id_witness:
  "\<not> present menuItems ''99'' \<and>
   put_menu menuItems ''99'' iced_tea = ((404, Message ''Menu item not found''), menuItems)"
proof -
  have a: "\<not> present menuItems ''99''" by code_simp
  from update_absent_id [OF a, of iced_tea] a show ?thesis
    by (simp add: iced_tea_valid)
qed

text \<open>Claim C1 as stated fails: on the seed data, an update of the absent id 99 with
  the empty object as candidate answers 400, not 404.\<close>

theorem update_absent_id_invalid_payload:
  "\<not> present menuItems ''99'' \<and> fst (fst (put_menu menuItems ''99'' [])) = 400"
  by code_simp

text \<open>
  Claim C2. An insert of a candidate that passes the validation appends an item whose
  id is one more than the greatest id of the collection, or 1 when the collection is
  empty. In particular, after the item 6 of the seed data is deleted, the next insert
  gets the id 6 again.
\<close>

theorem insert_assigns_max_plus_one:
  "snd (validationResult b) = [] \<Longrightarrow>
   (\<exists>item. post_menu st b = ((201, Item item), st @ [item]) \<and>
      item_id item = (if st = [] then 1 else Max (set (map item_id st)) + 1)) \<and>
   (\<exists>item. post_menu (snd (delete_menu menuItems ''6'')) b =
        ((201, Item item), snd (delete_menu menuItems ''6'') @ [item]) \<and>
      item_id item = 6)"
proof -
  assume v: "snd (validationResult b) = []"
  have six: "next_id (snd (delete_menu menuItems ''6'')) = 6" by code_simp
  from post_menu_valid [OF v, of st] post_menu_valid [OF v, of "snd (delete_menu menuItems ''6'')"]
  show ?thesis
    unfolding six by (simp only: next_id_Max)
qed

theorem insert_assigns_max_plus_one_witness:
  "snd (validationResult iced_tea) = [] \<and>
   (\<exists>item. post_menu menuItems iced_tea = ((201, Item item), menuItems @ [item]) \<and>
      item_id item = 7) \<and>
   (\<exists>item. post_menu (snd (delete_menu menuItems ''6'')) iced_tea =
        ((201, Item item), snd (delete_menu menuItems ''6'') @ [item]) \<and>
      item_id item = 6) \<and>
   map item_id (snd (delete_menu menuItems ''6'')) = [1, 2, 3, 4, 5]"
proof -
  have m: "(if menuItems = [] then 1 else Max (set (map item_id menuItems)) + 1) = 7"
    by (simp add: menuItems_def)
  have d: "map item_id (snd (delete_menu menuItems ''6'')) = [1, 2, 3, 4, 5]" by code_simp
  from insert_assigns_max_plus_one [OF iced_tea_valid, of menuItems] m d show ?thesis
    by (simp add: iced_tea_valid)
qed

text \<open>
  Claim C3 at a failing input. The check of \<^verbatim>\<open>available\<close> accepts the text
  \<^verbatim>\<open>"true"\<close>, and the handler stores the value as it came: after the insert the
  collection holds an item whose available is a text, not a boolean.
\<close>

theorem stored_available_text:
  "snd (validationResult ((''available'', Str ''true'') # iced_tea)) = [] \<and>
   get_menu (run menuItems [PostMenu ((''available'', Str ''true'') # iced_tea)]) ''7'' =
     (200, Item \<lparr>item_id = 7, name = Str ''Iced Tea'',
        description = Str ''Cold brewed tea over ice'', price = Fin (7 / 2),
        category = Str ''beverage'', ingredients = Arr [Str ''tea'', Str ''ice''],
        available = Str ''true''\<rparr>)"
  by code_simp

lemma find_append_new:
  "find P xs = None \<Longrightarrow> P y \<Longrightarrow> find P (xs @ [y]) = Some y"
  by (induction xs) (auto split: if_splits)

lemma get_new_item:
  assumes "parseInt idp = Some (next_id st)" and "item_id item = next_id st"
  shows "get_menu (st @ [item]) idp = (200, Item item)"
proof -
  have "\<not> present st idp"
    using assms(1) next_id_fresh [of st] by (simp add: present_iff del: set_map)
  then have "find (id_matches idp) st = None"
    by (simp add: present_def find_None_iff list_ex_iff)
  moreover have "id_matches idp item" using assms by (simp add: id_matches_def)
  ultimately have "find (id_matches idp) (st @ [item]) = Some item"
    by (rule find_append_new)
  then show ?thesis by (simp add: get_menu_def)
qed

text \<open>
  Claim C4, as amended. After an insert of a candidate that passes the validation, a get
  of the assigned id returns the created item: its id is the assigned id, its name and
  description are the candidate's texts with the white space at both ends removed, its
  price is the number \<^verbatim>\<open>parseFloat\<close> reads from the candidate's price, its category
  and ingredients are the candidate's, and its available is the candidate's, or true
  when the candidate has none. Other properties of the candidate are not part of it.
\<close>

theorem insert_then_get:
  "snd (validationResult b) = [] \<Longrightarrow> parseInt idp = Some (next_id st) \<Longrightarrow>
   \<exists>n d. get_prop b ''name'' = Str n \<and> get_prop b ''description'' = Str d \<and>
     fst (post_menu st b) =
       (201, Item \<lparr>item_id = next_id st, name = Str (trim n), description = Str (trim d),
          price = parseFloat (get_prop b ''price''), category = get_prop b ''category'',
          ingredients = get_prop b ''ingredients'',
          available = (if get_prop b ''available'' \<noteq> Undefined then get_prop b ''available''
                       else Bool True)\<rparr>) \<and>
     get_menu (snd (post_menu st b)) idp =
       (200, Item \<lparr>item_id = next_id st, name = Str (trim n), description = Str (trim d),
          price = parseFloat (get_prop b ''price''), category = get_prop b ''category'',
          ingredients = get_prop b ''ingredients'',
          available = (if get_prop b ''available'' \<noteq> Undefined then get_prop b ''available''
                       else Bool True)\<rparr>)"
proof -
  assume v: "snd (validationResult b) = []" and i: "parseInt idp = Some (next_id st)"
  from valid_body(1) [OF v] obtain n d where
    nd: "get_prop b ''name'' = Str n" "get_prop b ''description'' = Str d"
      "get_prop (fst (validationResult b)) ''name'' = Str (trim n)"
      "get_prop (fst (validationResult b)) ''description'' = Str (trim d)"
    by blast
  let ?item = "\<lparr>item_id = next_id st, name = Str (trim n), description = Str (trim d),
          price = parseFloat (get_prop b ''price''), category = get_prop b ''category'',
          ingredients = get_prop b ''ingredients'',
          available = (if get_prop b ''available'' \<noteq> Undefined then get_prop b ''available''
                       else Bool True)\<rparr>"
  have post: "post_menu st b = ((201, Item ?item), st @ [?item])"
    using v nd valid_body(2-5) [OF v]
    by (simp add: post_menu_def valid_request post_handler_def Let_def)
  have "get_menu (st @ [?item]) idp = (200, Item ?item)"
    using i by (rule get_new_item) simp
  with post nd show ?thesis by auto
qed

theorem insert_then_get_witness:
  "snd (validationResult padded_tea) = [] \<and> parseInt ''7'' = Some (next_id menuItems) \<and>
   (\<exists>n d. get_prop padded_tea ''name'' = Str n \<and> get_prop padded_tea ''description'' = Str d \<and>
     get_menu (snd (post_menu menuItems padded_tea)) ''7'' =
       (200, Item \<lparr>item_id = next_id menuItems, name = Str (trim n), description = Str (trim d),
          price = parseFloat (get_prop padded_tea ''price''),
          category = get_prop padded_tea ''category'',
          ingredients = get_prop padded_tea ''ingredients'',
          available = (if get_prop padded_tea ''available'' \<noteq> Undefined
                       then get_prop padded_tea ''available'' else Bool True)\<rparr>))"
proof -
  have v: "snd (validationResult padded_tea) = []" by code_simp
  have i: "parseInt ''7'' = Some (next_id menuItems)" by code_simp
  from insert_then_get [OF v i] v i show ?thesis by blast
qed

text \<open>Claim C4 as stated fails: the name of the candidate has white space at both
  ends, and the item that the get returns has the name without it.\<close>

theorem insert_then_get_trimmed:
  "snd (validationResult padded_tea) = [] \<and>
   get_prop padded_tea ''name'' = Str ''  Iced Tea  '' \<and>
   get_menu (snd (post_menu menuItems padded_tea)) ''7'' =
     (200, Item \<lparr>item_id = 7, name = Str ''Iced Tea'',
        description = Str ''Cold brewed tea over ice'', price = Fin (7 / 2),
        category = Str ''beverage'', ingredients = Arr [Str ''tea'', Str ''ice''],
        available = Bool True\<rparr>)"
  by code_simp









text \<open>
  Claim C6. An update of an existing id with a candidate that fails the validation
  answers 400 with the list of errors and leaves the collection, and so the record
  under that id, exactly as it was.
\<close>

theorem update_invalid_atomic:
  "present st idp \<Longrightarrow> snd (validationResult b) \<noteq> [] \<Longrightarrow>
   put_menu st idp b =
     ((400, MessageErrors ''Validation failed'' (snd (validationResult b))), st) \<and>
   get_menu (snd (put_menu st idp b)) idp = get_menu st idp"
  by (simp add: put_menu_def invalid_request)

theorem update_invalid_atomic_witness:
  "present menuItems ''3'' \<and> snd (validationResult five_wrong) \<noteq> [] \<and>
   put_menu menuItems ''3'' five_wrong =
     ((400, MessageErrors ''Validation failed'' (snd (validationResult five_wrong))), menuItems) \<and>
   get_menu (snd (put_menu menuItems ''3'' five_wrong)) ''3'' = get_menu menuItems ''3''"
proof -
  have a: "present menuItems ''3''" by code_simp
  have b: "snd (validationResult five_wrong) \<noteq> []" by code_simp
  from update_invalid_atomic [OF a b] a b show ?thesis by simp
qed

text \<open>
  Claim C7, as amended. When \<^verbatim>\<open>parseInt\<close> of the path parameter is \<^verbatim>\<open>NaN\<close>, the
  routes answer exactly as for an id that is not in the collection: get and delete
  answer 404, and update answers 404 when the candidate passes the validation and 400
  when it does not. The collection is unchanged.
\<close>

theorem non_numeric_id:
  "parseInt idp = None \<Longrightarrow>
   get_menu st idp = (404, Message ''Menu item not found'') \<and>
   delete_menu st idp = ((404, Message ''Menu item not found''), st) \<and>
   put_menu st idp b =
     ((if snd (validationResult b) = [] then (404, Message ''Menu item not found'')
       else (400, MessageErrors ''Validation failed'' (snd (validationResult b)))), st) \<and>
   (\<not> present st idq \<longrightarrow>
      get_menu st idp = get_menu st idq \<and> delete_menu st idp = delete_menu st idq \<and>
      put_menu st idp b = put_menu st idq b)"
proof -
  assume "parseInt idp = None"
  then have a: "\<not> present st idp" by (rule not_present_NaN)
  have put: "put_menu st i b =
     ((if snd (validationResult b) = [] then (404, Message ''Menu item not found'')
       else (400, MessageErrors ''Validation failed'' (snd (validationResult b)))), st)"
    if "\<not> present st i" for i
    using that by (simp add: put_menu_def valid_request invalid_request put_handler_absent)
  from a show ?thesis
    by (simp add: get_menu_absent delete_menu_None put)
qed

theorem non_numeric_id_witness:
  "parseInt ''abc'' = None \<and>
   get_menu menuItems ''abc'' = (404, Message ''Menu item not found'') \<and>
   delete_menu menuItems ''abc'' = ((404, Message ''Menu item not found''), menuItems) \<and>
   put_menu menuItems ''abc'' iced_tea = ((404, Message ''Menu item not found''), menuItems) \<and>
   \<not> present menuItems ''99'' \<and>
   get_menu menuItems ''abc'' = get_menu menuItems ''99'' \<and>
   delete_menu menuItems ''abc'' = delete_menu menuItems ''99'' \<and>
   put_menu menuItems ''abc'' iced_tea = put_menu menuItems ''99'' iced_tea"
proof -
  have a: "parseInt ''abc'' = None" by code_simp
  have b: "\<not> present menuItems ''99''" by code_simp
  from non_numeric_id [OF a, of menuItems iced_tea "''99''"] a b show ?thesis
    by (auto simp: iced_tea_valid)
qed

text \<open>Claim C7 as stated fails: with the parameter \<^verbatim>\<open>abc\<close> and the empty object as
  candidate the update answers 400, and the parameter \<^verbatim>\<open>1abc\<close>, which is not a
  number, is read as 1 and the get answers 200 with the item 1.\<close>

theorem non_numeric_id_counterexample:
  "parseInt ''abc'' = None \<and> fst (fst (put_menu menuItems ''abc'' [])) = 400 \<and>
   fst (get_menu menuItems ''1abc'') = 200"
  by code_simp

lemma put_menu_written:
  assumes "fst (fst (put_menu st idp b)) = 200"
  shows "\<exists>i n d. findIndex (id_matches idp) st = Some i \<and>
           get_prop b ''name'' = Str n \<and> get_prop b ''description'' = Str d \<and>
           (let item = (st ! i)\<lparr>name := Str (trim n), description := Str (trim d),
                         price := parseFloat (get_prop b ''price''),
                         category := get_prop b ''category'',
                         ingredients := get_prop b ''ingredients'',
                         available := (if get_prop b ''available'' \<noteq> Undefined
                                       then get_prop b ''available'' else Bool True)\<rparr>
            in put_menu st idp b = ((200, Item item), st[i := item]))"
proof (cases "snd (validationResult b) = []")
  case False
  with assms show ?thesis by (simp add: put_menu_def invalid_request)
next
  case True
  then have eq: "put_menu st idp b = put_handler st idp (fst (validationResult b))"
    by (simp add: put_menu_def valid_request)
  from valid_body(1) [OF True] obtain n d where
    nd: "get_prop b ''name'' = Str n" "get_prop b ''description'' = Str d"
      "get_prop (fst (validationResult b)) ''name'' = Str (trim n)"
      "get_prop (fst (validationResult b)) ''description'' = Str (trim d)"
    by blast
  show ?thesis
  proof (cases "findIndex (id_matches idp) st")
    case None
    with assms eq show ?thesis by (simp add: put_handler_def)
  next
    case (Some i)
    have "put_handler st idp (fst (validationResult b)) =
      (let item = (st ! i)\<lparr>name := Str (trim n), description := Str (trim d),
                         price := parseFloat (get_prop b ''price''),
                         category := get_prop b ''category'',
                         ingredients := get_prop b ''ingredients'',
                         available := (if get_prop b ''available'' \<noteq> Undefined
                                       then get_prop b ''available'' else Bool True)\<rparr>
       in ((200, Item item), st[i := item]))"
      using Some nd valid_body(2-5) [OF True]
      by (simp add: put_handler_def Let_def)
    with Some nd eq show ?thesis by (simp add: Let_def)
  qed
qed

text \<open>
  Claim C8. The list route returns the stored sequence as it is, and an insert appends
  at its end, so the order is the order of insertion. A successful update writes the
  validated fields of the candidate into the first item with the id, at its own index:
  the item keeps its id, gets the trimmed name and description, the parsed price, the
  category, the ingredients and the given or defaulted available of the candidate, and
  no other position changes. A successful delete removes the element at the index of the
  first item with the id and leaves the items before and after it as they were.
\<close>

theorem order_and_positions:
  "list_menu st = (200, Items st) \<and>
   (snd (validationResult b) = [] \<longrightarrow>
      (\<exists>item. post_menu st b = ((201, Item item), st @ [item]) \<and> item_id item = next_id st)) \<and>
   (fst (fst (put_menu st idp b)) = 200 \<longrightarrow>
      (\<exists>i n d. i < length st \<and> id_matches idp (st ! i) \<and>
         (\<forall>j. j < i \<longrightarrow> \<not> id_matches idp (st ! j)) \<and>
         get_prop b ''name'' = Str n \<and> get_prop b ''description'' = Str d \<and>
         (let item = (st ! i)\<lparr>name := Str (trim n), description := Str (trim d),
                       price := parseFloat (get_prop b ''price''),
                       category := get_prop b ''category'',
                       ingredients := get_prop b ''ingredients'',
                       available := (if get_prop b ''available'' \<noteq> Undefined
                                     then get_prop b ''available'' else Bool True)\<rparr>
          in fst (put_menu st idp b) = (200, Item item) \<and> item_id item = item_id (st ! i) \<and>
             snd (put_menu st idp b) = st[i := item]) \<and>
         length (snd (put_menu st idp b)) = length st \<and>
         (\<forall>j. j \<noteq> i \<longrightarrow> snd (put_menu st idp b) ! j = st ! j))) \<and>
   (fst (fst (delete_menu st idp)) = 200 \<longrightarrow>
      (\<exists>i. i < length st \<and> id_matches idp (st ! i) \<and>
         (\<forall>j. j < i \<longrightarrow> \<not> id_matches idp (st ! j)) \<and>
         fst (delete_menu st idp) = (200, MessageItem ''Menu item deleted'' (st ! i)) \<and>
         snd (delete_menu st idp) = take i st @ drop (Suc i) st \<and>
         Suc (length (snd (delete_menu st idp))) = length st))"
proof -
  have a: "list_menu st = (200, Items st)" by (simp add: list_menu_def)
  have b: "\<exists>item. post_menu st b = ((201, Item item), st @ [item]) \<and> item_id item = next_id st"
    if "snd (validationResult b) = []"
    using that by (rule post_menu_valid)
  have c: "\<exists>i n d. i < length st \<and> id_matches idp (st ! i) \<and>
         (\<forall>j. j < i \<longrightarrow> \<not> id_matches idp (st ! j)) \<and>
         get_prop b ''name'' = Str n \<and> get_prop b ''description'' = Str d \<and>
         (let item = (st ! i)\<lparr>name := Str (trim n), description := Str (trim d),
                       price := parseFloat (get_prop b ''price''),
                       category := get_prop b ''category'',
                       ingredients := get_prop b ''ingredients'',
                       available := (if get_prop b ''available'' \<noteq> Undefined
                                     then get_prop b ''available'' else Bool True)\<rparr>
          in fst (put_menu st idp b) = (200, Item item) \<and> item_id item = item_id (st ! i) \<and>
             snd (put_menu st idp b) = st[i := item]) \<and>
         length (snd (put_menu st idp b)) = length st \<and>
         (\<forall>j. j \<noteq> i \<longrightarrow> snd (put_menu st idp b) ! j = st ! j)"
    if "fst (fst (put_menu st idp b)) = 200"
  proof -
    from put_menu_written [OF that] obtain i n d where
      i: "findIndex (id_matches idp) st = Some i" and
      nd: "get_prop b ''name'' = Str n" "get_prop b ''description'' = Str d" and
      p: "let item = (st ! i)\<lparr>name := Str (trim n), description := Str (trim d),
                         price := parseFloat (get_prop b ''price''),
                         category := get_prop b ''category'',
                         ingredients := get_prop b ''ingredients'',
                         available := (if get_prop b ''available'' \<noteq> Undefined
                                       then get_prop b ''available'' else Bool True)\<rparr>
            in put_menu st idp b = ((200, Item item), st[i := item])" by blast
    from findIndex_Some [OF i] have f: "i < length st" "id_matches idp (st ! i)"
      "\<forall>j. j < i \<longrightarrow> \<not> id_matches idp (st ! j)" by simp_all
    from p have "length (snd (put_menu st idp b)) = length st"
      "\<forall>j. j \<noteq> i \<longrightarrow> snd (put_menu st idp b) ! j = st ! j"
      by (simp_all add: Let_def)
    with f nd p show ?thesis
      by (intro exI [of _ i] exI [of _ n] exI [of _ d]) (simp add: Let_def)
  qed
  have d: "\<exists>i. i < length st \<and> id_matches idp (st ! i) \<and>
         (\<forall>j. j < i \<longrightarrow> \<not> id_matches idp (st ! j)) \<and>
         fst (delete_menu st idp) = (200, MessageItem ''Menu item deleted'' (st ! i)) \<and>
         snd (delete_menu st idp) = take i st @ drop (Suc i) st \<and>
         Suc (length (snd (delete_menu st idp))) = length st"
    if "fst (fst (delete_menu st idp)) = 200"
  proof (cases "findIndex (id_matches idp) st")
    case None
    with that show ?thesis by (simp add: delete_menu_def)
  next
    case (Some i)
    from findIndex_Some [OF Some] delete_menu_Some [OF Some] show ?thesis by auto
  qed
  from a b c d show ?thesis by blast
qed

theorem order_and_positions_witness:
  "list_menu menuItems = (200, Items menuItems) \<and>
   map item_id menuItems = [1, 2, 3, 4, 5, 6] \<and>
   snd (validationResult padded_tea) = [] \<and>
   (\<exists>item. post_menu menuItems padded_tea = ((201, Item item), menuItems @ [item]) \<and>
      item_id item = next_id menuItems) \<and>
   fst (fst (put_menu menuItems ''3'' padded_tea)) = 200 \<and>
   (\<exists>i n d. i < length menuItems \<and> id_matches ''3'' (menuItems ! i) \<and>
      get_prop padded_tea ''name'' = Str n \<and> get_prop padded_tea ''description'' = Str d \<and>
      (let item = (menuItems ! i)\<lparr>name := Str (trim n), description := Str (trim d),
                    price := parseFloat (get_prop padded_tea ''price''),
                    category := get_prop padded_tea ''category'',
                    ingredients := get_prop padded_tea ''ingredients'',
                    available := (if get_prop padded_tea ''available'' \<noteq> Undefined
                                  then get_prop padded_tea ''available'' else Bool True)\<rparr>
       in fst (put_menu menuItems ''3'' padded_tea) = (200, Item item) \<and>
          item_id item = item_id (menuItems ! i) \<and>
          snd (put_menu menuItems ''3'' padded_tea) = menuItems[i := item])) \<and>
   put_menu menuItems ''3'' padded_tea =
     ((200, Item \<lparr>item_id = 3, name = Str ''Iced Tea'',
         description = Str ''Cold brewed tea over ice'', price = Fin (7 / 2),
         category = Str ''beverage'', ingredients = Arr [Str ''tea'', Str ''ice''],
         available = Bool True\<rparr>),
      take 2 menuItems @
      [\<lparr>item_id = 3, name = Str ''Iced Tea'',
         description = Str ''Cold brewed tea over ice'', price = Fin (7 / 2),
         category = Str ''beverage'', ingredients = Arr [Str ''tea'', Str ''ice''],
         available = Bool True\<rparr>] @ drop 3 menuItems) \<and>
   fst (fst (delete_menu menuItems ''3'')) = 200 \<and>
   (\<exists>i. i < length menuItems \<and> id_matches ''3'' (menuItems ! i) \<and>
      fst (delete_menu menuItems ''3'') = (200, MessageItem ''Menu item deleted'' (menuItems ! i)) \<and>
      snd (delete_menu menuItems ''3'') = take i menuItems @ drop (Suc i) menuItems) \<and>
   delete_menu menuItems ''3'' =
     ((200, MessageItem ''Menu item deleted'' (menuItems ! 2)),
      take 2 menuItems @ drop 3 menuItems) \<and>
   map item_id (snd (delete_menu menuItems ''3'')) = [1, 2, 4, 5, 6]"
proof -
  have v: "snd (validationResult padded_tea) = []" by code_simp
  have p: "fst (fst (put_menu menuItems ''3'' padded_tea)) = 200" by code_simp
  have d: "fst (fst (delete_menu menuItems ''3'')) = 200" by code_simp
  have l: "map item_id menuItems = [1, 2, 3, 4, 5, 6]" by code_simp
  have e: "put_menu menuItems ''3'' padded_tea =
     ((200, Item \<lparr>item_id = 3, name = Str ''Iced Tea'',
         description = Str ''Cold brewed tea over ice'', price = Fin (7 / 2),
         category = Str ''beverage'', ingredients = Arr [Str ''tea'', Str ''ice''],
         available = Bool True\<rparr>),
      take 2 menuItems @
      [\<lparr>item_id = 3, name = Str ''Iced Tea'',
         description = Str ''Cold brewed tea over ice'', price = Fin (7 / 2),
         category = Str ''beverage'', ingredients = Arr [Str ''tea'', Str ''ice''],
         available = Bool True\<rparr>] @ drop 3 menuItems)" by code_simp
  have f: "map item_id (snd (delete_menu menuItems ''3'')) = [1, 2, 4, 5, 6]" by code_simp
  have g: "delete_menu menuItems ''3'' =
     ((200, MessageItem ''Menu item deleted'' (menuItems ! 2)),
      take 2 menuItems @ drop 3 menuItems)" by code_simp
  from order_and_positions [of menuItems padded_tea "''3''"] v p d l e f g
  show ?thesis by blast
qed

lemma delete_removes_id:
  assumes "distinct (map item_id st)"
  shows "\<not> present (snd (delete_menu st idp)) idp"
proof (cases "findIndex (id_matches idp) st")
  case None
  then have "\<not> present st idp" by (simp add: present_def findIndex_None)
  then show ?thesis by (simp add: delete_menu_None)
next
  case (Some i)
  from findIndex_Some [OF Some] have i: "i < length st" and m: "parseInt idp = Some (item_id (st ! i))"
    by (simp_all add: id_matches_def)
  have "map item_id st = take i (map item_id st) @ item_id (st ! i) # drop (Suc i) (map item_id st)"
    using i id_take_nth_drop [of i "map item_id st"] by simp
  with assms have "distinct (take i (map item_id st) @ item_id (st ! i) # drop (Suc i) (map item_id st))"
    by simp
  then have "item_id (st ! i) \<notin> set (take i (map item_id st) @ drop (Suc i) (map item_id st))"
    by simp
  then have "item_id (st ! i) \<notin> set (map item_id (take i st @ drop (Suc i) st))"
    by (simp add: take_map drop_map)
  with m show ?thesis
    by (simp add: delete_menu_Some [OF Some] present_iff del: set_map map_append)
qed

lemma absent_step:
  assumes "\<not> present st idp" and "\<not> inserts_id idp st r"
  shows "\<not> present (snd (handle st r)) idp"
proof (cases r)
  case ListMenu
  with assms show ?thesis by simp
next
  case (GetMenu x)
  with assms show ?thesis by simp
next
  case (PostMenu b)
  with assms show ?thesis
    by (auto simp: present_iff ids_post_menu simp del: set_map)
next
  case (PutMenu x b)
  with assms show ?thesis by (simp add: present_iff ids_put_menu del: set_map)
next
  case (DeleteMenu x)
  from ids_delete_menu [of st x] have "set (map item_id (snd (delete_menu st x))) \<subseteq> set (map item_id st)"
    by (auto simp del: set_map dest: in_set_takeD in_set_dropD)
  with assms DeleteMenu show ?thesis
    by (auto simp: present_iff simp del: set_map)
qed

lemma absent_run:
  "\<not> present st idp \<Longrightarrow> never_inserted idp st rs \<Longrightarrow> \<not> present (run st rs) idp"
proof (induction rs arbitrary: st)
  case Nil
  then show ?case by simp
next
  case (Cons r rs)
  from Cons.prems have "\<not> present (snd (handle st r)) idp"
    by (simp add: absent_step)
  with Cons show ?case by simp
qed

text \<open>
  Claim C9. In every state the server can reach, a delete of an id that is present
  answers 200 with the confirmation message and the removed item, and afterwards a get
  of that id answers 404: at once, and after any run of requests in which no insert
  creates an item under that id again.
\<close>

theorem delete_then_get:
  "reachable st \<Longrightarrow> present st idp \<Longrightarrow>
   \<exists>item. fst (delete_menu st idp) = (200, MessageItem ''Menu item deleted'' item) \<and>
     item \<in> set st \<and> id_matches idp item \<and>
     get_menu (snd (delete_menu st idp)) idp = (404, Message ''Menu item not found'') \<and>
     (\<forall>rs. never_inserted idp (snd (delete_menu st idp)) rs \<longrightarrow>
        get_menu (run (snd (delete_menu st idp)) rs) idp = (404, Message ''Menu item not found''))"
proof -
  assume r: "reachable st" and p: "present st idp"
  from p obtain i where i: "findIndex (id_matches idp) st = Some i"
    using findIndex_None [of "id_matches idp" st] by (auto simp: present_def)
  from r have "distinct (map item_id st)" by (rule reachable_distinct)
  then have gone: "\<not> present (snd (delete_menu st idp)) idp" by (rule delete_removes_id)
  have later: "get_menu (run (snd (delete_menu st idp)) rs) idp = (404, Message ''Menu item not found'')"
    if "never_inserted idp (snd (delete_menu st idp)) rs" for rs
    using absent_run [OF gone that] by (rule get_menu_absent)
  from findIndex_Some [OF i] have "st ! i \<in> set st" "id_matches idp (st ! i)" by simp_all
  with delete_menu_Some [OF i] gone later show ?thesis
    by (auto simp: get_menu_absent)
qed

theorem delete_then_get_witness:
  "reachable menuItems \<and> present menuItems ''6'' \<and>
   never_inserted ''6'' (snd (delete_menu menuItems ''6''))
     [PutMenu ''2'' iced_tea, PostMenu five_wrong, GetMenu ''6'', DeleteMenu ''1''] \<and>
   (\<exists>item. fst (delete_menu menuItems ''6'') = (200, MessageItem ''Menu item deleted'' item) \<and>
     id_matches ''6'' item) \<and>
   get_menu (snd (delete_menu menuItems ''6'')) ''6'' = (404, Message ''Menu item not found'') \<and>
   get_menu (run (snd (delete_menu menuItems ''6''))
       [PutMenu ''2'' iced_tea, PostMenu five_wrong, GetMenu ''6'', DeleteMenu ''1'']) ''6'' =
     (404, Message ''Menu item not found'')"
proof -
  have p: "present menuItems ''6''" by code_simp
  have n: "never_inserted ''6'' (snd (delete_menu menuItems ''6''))
     [PutMenu ''2'' iced_tea, PostMenu five_wrong, GetMenu ''6'', DeleteMenu ''1'']" by code_simp
  from delete_then_get [OF reachable.init p] n p reachable.init show ?thesis
    by blast
qed

lemma post_handler_cong:
  "map (get_prop b1) known_fields = map (get_prop b2) known_fields \<Longrightarrow>
   post_handler st b1 = post_handler st b2"
  by (simp add: post_handler_def known_fields_def)

lemma put_handler_cong:
  "map (get_prop b1) known_fields = map (get_prop b2) known_fields \<Longrightarrow>
   put_handler st idp b1 = put_handler st idp b2"
  by (simp add: put_handler_def known_fields_def split: option.splits)

lemma validation_cong:
  assumes "map (get_prop b1) known_fields = map (get_prop b2) known_fields"
  shows "snd (validationResult b1) = snd (validationResult b2)"
    and "map (get_prop (fst (validationResult b1))) known_fields =
         map (get_prop (fst (validationResult b2))) known_fields"
proof -
  from assms have all: "\<forall>k\<in>set known_fields. get_prop b1 k = get_prop b2 k" by simp
  then show "snd (validationResult b1) = snd (validationResult b2)"
    by (rule validation_cong_errors)
  from all show "map (get_prop (fst (validationResult b1))) known_fields =
         map (get_prop (fst (validationResult b2))) known_fields"
    by (simp add: validation_cong_body)
qed

text \<open>
  Claim C10. Insert and update read only the six known fields of the payload: two
  payloads that agree on them, whatever else they hold (an id, other properties), give
  the same response and the same collection. An update never changes the ids of the
  collection, and an insert gives the new item the next id of the collection.
\<close>

theorem only_known_fields:
  "map (get_prop b1) known_fields = map (get_prop b2) known_fields \<Longrightarrow>
   post_menu st b1 = post_menu st b2 \<and> put_menu st idp b1 = put_menu st idp b2 \<and>
   map item_id (snd (put_menu st idp b1)) = map item_id st \<and>
   (snd (validationResult b1) = [] \<longrightarrow>
      (\<exists>item. post_menu st b1 = ((201, Item item), st @ [item]) \<and> item_id item = next_id st))"
proof -
  assume a: "map (get_prop b1) known_fields = map (get_prop b2) known_fields"
  note e = validation_cong(1) [OF a]
  note h = validation_cong(2) [OF a]
  have "post_menu st b1 = post_menu st b2"
    using e post_handler_cong [OF h]
    by (cases "snd (validationResult b1) = []") (simp_all add: post_menu_def valid_request invalid_request)
  moreover have "put_menu st idp b1 = put_menu st idp b2"
    using e put_handler_cong [OF h]
    by (cases "snd (validationResult b1) = []") (simp_all add: put_menu_def valid_request invalid_request)
  ultimately show ?thesis
    using post_menu_valid [of b1 st] by (simp add: ids_put_menu)
qed

theorem only_known_fields_witness:
  "map (get_prop ((''id'', Num ''99'') # (''calories'', Num ''120'') # iced_tea)) known_fields =
     map (get_prop iced_tea) known_fields \<and>
   post_menu menuItems ((''id'', Num ''99'') # (''calories'', Num ''120'') # iced_tea) =
     post_menu menuItems iced_tea \<and>
   put_menu menuItems ''3'' ((''id'', Num ''99'') # (''calories'', Num ''120'') # iced_tea) =
     put_menu menuItems ''3'' iced_tea \<and>
   map item_id (snd (put_menu menuItems ''3''
     ((''id'', Num ''99'') # (''calories'', Num ''120'') # iced_tea))) = [1, 2, 3, 4, 5, 6] \<and>
   map item_id (snd (post_menu menuItems
     ((''id'', Num ''99'') # (''calories'', Num ''120'') # iced_tea))) = [1, 2, 3, 4, 5, 6, 7]"
proof -
  have a: "map (get_prop ((''id'', Num ''99'') # (''calories'', Num ''120'') # iced_tea)) known_fields =
     map (get_prop iced_tea) known_fields" by code_simp
  have l: "map item_id menuItems = [1, 2, 3, 4, 5, 6]" by code_simp
  have p: "map item_id (snd (post_menu menuItems iced_tea)) = [1, 2, 3, 4, 5, 6, 7]" by code_simp
  note t = only_known_fields [OF a, of menuItems "''3''"]
  from t have c1: "post_menu menuItems ((''id'', Num ''99'') # (''calories'', Num ''120'') # iced_tea) =
     post_menu menuItems iced_tea" by blast
  from t have c2: "put_menu menuItems ''3'' ((''id'', Num ''99'') # (''calories'', Num ''120'') # iced_tea) =
     put_menu menuItems ''3'' iced_tea" by blast
  from t have "map item_id (snd (put_menu menuItems ''3''
     ((''id'', Num ''99'') # (''calories'', Num ''120'') # iced_tea))) = map item_id menuItems" by blast
  from this l have c3: "map item_id (snd (put_menu menuItems ''3''
     ((''id'', Num ''99'') # (''calories'', Num ''120'') # iced_tea))) = [1, 2, 3, 4, 5, 6]" by (rule trans)
  from c1 p have c4: "map item_id (snd (post_menu menuItems
     ((''id'', Num ''99'') # (''calories'', Num ''120'') # iced_tea))) = [1, 2, 3, 4, 5, 6, 7]"
    by (simp only:)
  from a c1 c2 c3 c4 show ?thesis by blast
qed

end
